theory Spec2Isabelle
  imports Complex_Main
begin

section \<open>Numbers, errors and the pandas Series operations\<close>

text \<open>
  The two chart modules are embedded function by function. Python floats are idealised
  as exact reals (no rounding error, no NaN payload): a NaN result of pandas
  (\<open>min\<close>, \<open>max\<close>, \<open>median\<close> of an empty Series) is \<open>None\<close>. Exceptions are values of
  \<open>py_error\<close>, and a function that can raise returns \<open>py_error + 'a\<close>.
\<close>

datatype py_error = ZeroDivisionError | KeyError | ValueError | CorrFailure

text \<open>\<open>Series.diff().fillna(0)\<close>: the first difference is NaN and is filled with 0.\<close>

definition diff_fillna :: "real list \<Rightarrow> real list" where
  "diff_fillna xs =
     (case xs of
        [] \<Rightarrow> []
      | _ # rest \<Rightarrow> 0 # map (\<lambda>(prev, cur). cur - prev) (zip xs rest))"

text \<open>
  \<open>Series.mode()\<close>: every value whose count is the highest count, in ascending order.
  A Series in which no value repeats has all its values as modes.
\<close>

definition series_mode :: "real list \<Rightarrow> real list" where
  "series_mode vs =
     (let top = fold max (map (count_list vs) vs) 0
      in sort (remdups (filter (\<lambda>v. count_list vs v = top) vs)))"

definition series_median :: "real list \<Rightarrow> real option" where
  "series_median vs =
     (if vs = [] then None
      else let s = sort vs; n = length s
           in Some (if odd n then s ! (n div 2)
                    else (s ! (n div 2 - 1) + s ! (n div 2)) / 2))"

definition series_min :: "real list \<Rightarrow> real option" where
  "series_min vs = (case vs of [] \<Rightarrow> None | v # rest \<Rightarrow> Some (fold min rest v))"

definition series_max :: "real list \<Rightarrow> real option" where
  "series_max vs = (case vs of [] \<Rightarrow> None | v # rest \<Rightarrow> Some (fold max rest v))"

text \<open>\<open>idxmax\<close> / \<open>idxmin\<close> give the first position of the extreme value.\<close>

fun first_index :: "real \<Rightarrow> real list \<Rightarrow> nat" where
  "first_index v [] = 0"
| "first_index v (x # xs) = (if x = v then 0 else Suc (first_index v xs))"

text \<open>Python's \<open>a or b\<close> on an optional number: \<open>None\<close> and \<open>0\<close> are falsy.\<close>

definition py_or :: "real option \<Rightarrow> real option \<Rightarrow> real option" where
  "py_or a b = (case a of None \<Rightarrow> b | Some v \<Rightarrow> if v = 0 then b else Some v)"

section \<open>Preprocessing of the data frame\<close>

text \<open>
  The input frame has a date column (already a point in time, as \<open>pd.to_datetime\<close>
  returns it) and a rate column; it may or may not carry a \<open>rate_change\<close> column.
  \<open>sort_values\<close> is modelled by the stable sort; pandas leaves the order of rows with
  equal dates open, and the general statements below are proved for all frames, so they
  hold for each such order (a frame already in that order is sorted to itself).
\<close>

datatype data_frame =
    Rates "(int \<times> real) list"
  | RatesWithChange "(int \<times> real \<times> real) list"

text \<open>The rate column of the input frame, in the order given.\<close>

definition frame_rates :: "data_frame \<Rightarrow> real list" where
  "frame_rates df =
     (case df of Rates rs \<Rightarrow> map snd rs | RatesWithChange rs \<Rightarrow> map (\<lambda>(t, r, c). r) rs)"

record plot_row =
  time_formatted :: int
  rate :: real
  rate_change :: real

record plot_args =
  figsize :: "real \<times> real"
  font_scale :: real
  max_bar_labels :: int
  first_rate :: real
  output_file :: "string option"

text \<open>
  Lines 41-56: copy, sort by time, and derive \<open>rate_change\<close> when the column is absent.
  The local variable \<open>first_rate\<close> is reassigned there; its final value is returned
  beside the frame.
\<close>

definition preprocess :: "data_frame \<Rightarrow> real \<Rightarrow> plot_row list \<times> real" where
  "preprocess df fr =
     (case df of
        RatesWithChange rs \<Rightarrow>
          (sort_key time_formatted
             (map (\<lambda>(t, r, c). \<lparr>time_formatted = t, rate = r, rate_change = c\<rparr>) rs), fr)
      | Rates rs \<Rightarrow>
          (let sorted = sort_key fst rs;
               changes = diff_fillna (map snd sorted);
               plot_df = map (\<lambda>((t, r), c). \<lparr>time_formatted = t, rate = r, rate_change = c\<rparr>)
                           (zip sorted changes);
               fr' = (case plot_df of
                        [] \<Rightarrow> fr
                      | r0 # _ \<Rightarrow>
                          if fr = 0 \<and> length plot_df > 0 then rate r0 - rate_change r0 else fr)
           in (plot_df, fr')))"

section \<open>Adaptive colour normalisation (lines 81-104)\<close>

definition get_mode_pd :: "real list \<Rightarrow> real option" where
  "get_mode_pd vs =
     (if vs = [] then None
      else case series_mode vs of [] \<Rightarrow> None | m # _ \<Rightarrow> Some m)"

definition positive_values :: "real list \<Rightarrow> real list" where
  "positive_values ds = filter (\<lambda>d. d > 0) ds"

definition negative_values :: "real list \<Rightarrow> real list" where
  "negative_values ds = filter (\<lambda>d. d < 0) ds"

definition pos_mode :: "real list \<Rightarrow> real option" where
  "pos_mode ds = py_or (get_mode_pd (positive_values ds)) (series_median (positive_values ds))"

definition neg_mode :: "real list \<Rightarrow> real option" where
  "neg_mode ds = py_or (get_mode_pd (negative_values ds)) (series_median (negative_values ds))"

definition vmin :: "real list \<Rightarrow> real option" where
  "vmin ds = (if negative_values ds \<noteq> [] then neg_mode ds else series_min ds)"

definition vmax :: "real list \<Rightarrow> real option" where
  "vmax ds = (if positive_values ds \<noteq> [] then pos_mode ds else series_max ds)"

text \<open>
  \<open>plt.Normalize(vmin, vmax)\<close> applied to the deltas: all 0 when the bounds coincide,
  \<open>ValueError\<close> when \<open>vmin > vmax\<close>, linear otherwise; NaN bounds give NaN. The colour
  of a bar is the fixed colormap \<open>RdYlGn\<close> of this number, so the number stands for it.
\<close>

definition color_norm :: "real option \<Rightarrow> real option \<Rightarrow> real list \<Rightarrow> py_error + real option list" where
  "color_norm lo hi ds =
     (case (lo, hi) of
        (Some a, Some b) \<Rightarrow>
          if a = b then Inr (map (\<lambda>_. Some 0) ds)
          else if a > b then Inl ValueError
          else Inr (map (\<lambda>d. Some ((d - a) / (b - a))) ds)
      | _ \<Rightarrow> Inr (map (\<lambda>_. None) ds))"

section \<open>Bar labels (lines 120-151)\<close>

text \<open>The text of a label is \<open>f'{v:.1f}'\<close>: one decimal, ties to even, sign kept.\<close>

definition round_half_even :: "real \<Rightarrow> int" where
  "round_half_even x =
     (let f = \<lfloor>x\<rfloor>; d = x - of_int f
      in if d < 1 / 2 then f else if d > 1 / 2 then f + 1 else if even f then f else f + 1)"

definition digit_char :: "nat \<Rightarrow> char" where
  "digit_char d = ''0123456789'' ! d"

function show_nat :: "nat \<Rightarrow> string" where
  "show_nat n = (if n < 10 then [digit_char n] else show_nat (n div 10) @ [digit_char (n mod 10)])"
  by pat_completeness auto
termination
  by (relation "measure id") auto

declare show_nat.simps [simp del]

definition format_1f :: "real \<Rightarrow> string" where
  "format_1f v =
     (let t = nat (round_half_even (\<bar>v\<bar> * 10))
      in (if v < 0 then ''-'' else '''') @ show_nat (t div 10) @ ''.'' @ show_nat (t mod 10))"

datatype valign = Top | Bottom

record bar_label =
  label_idx :: nat
  label_value :: real
  label_text :: string
  label_y :: real
  label_va :: valign
  label_fontsize :: real

definition np_clip :: "real \<Rightarrow> real \<Rightarrow> real \<Rightarrow> real" where
  "np_clip y lo hi = min (max y lo) hi"

text \<open>
  One \<open>ax1.text\<close> call. The height of bar \<open>idx\<close> is its delta; \<open>ylim\<close> is what
  \<open>ax1.get_ylim()\<close> returns (matplotlib's autoscaling, a parameter here); \<open>n\<close> is
  \<open>len(plot_df)\<close>, at least 1 whenever a bar exists.
\<close>

definition make_label :: "real \<times> real \<Rightarrow> real \<Rightarrow> nat \<Rightarrow> nat \<Rightarrow> real \<Rightarrow> bar_label" where
  "make_label ylim fig_w n idx current_value =
     (let (y0, va) = (if current_value > 0
                      then (current_value - \<bar>current_value\<bar> * 0.15, Top)
                      else (current_value + \<bar>current_value\<bar> * 0.15, Bottom));
          (y_min, y_max) = ylim;
          y_pos = (if y_min = y_max then y0
                   else let safe_range = 0.05 * (y_max - y_min)
                        in np_clip y0 (y_min + safe_range) (y_max - safe_range))
      in \<lparr>label_idx = idx, label_value = current_value, label_text = format_1f current_value,
          label_y = y_pos, label_va = va,
          label_fontsize = max 8 (min 14 (72 * fig_w / (of_nat n * 0.6)))\<rparr>)"

text \<open>
  The loop over the bars: \<open>seen_values\<close> is the set of delta values already labelled
  (the values themselves, not their texts).
\<close>

fun label_loop :: "real \<times> real \<Rightarrow> real \<Rightarrow> nat \<Rightarrow> int \<Rightarrow> real set \<Rightarrow> (nat \<times> real) list
                     \<Rightarrow> bar_label list" where
  "label_loop ylim fig_w n label_interval seen_values [] = []"
| "label_loop ylim fig_w n label_interval seen_values ((idx, current_value) # bars) =
     (if int idx mod label_interval = 0
      then (if current_value \<in> seen_values
            then label_loop ylim fig_w n label_interval seen_values bars
            else make_label ylim fig_w n idx current_value
                 # label_loop ylim fig_w n label_interval (insert current_value seen_values) bars)
      else label_loop ylim fig_w n label_interval seen_values bars)"

definition label_interval_of :: "nat \<Rightarrow> int \<Rightarrow> py_error + int" where
  "label_interval_of n mbl =
     (if mbl = 0 then Inl ZeroDivisionError else Inr (max 1 (int n div mbl)))"

definition bar_labels :: "real \<times> real \<Rightarrow> real \<Rightarrow> int \<Rightarrow> real list \<Rightarrow> py_error + bar_label list" where
  "bar_labels ylim fig_w mbl ds =
     (case label_interval_of (length ds) mbl of
        Inl e \<Rightarrow> Inl e
      | Inr label_interval \<Rightarrow>
          Inr (label_loop ylim fig_w (length ds) label_interval {} (zip [0..<length ds] ds)))"

section \<open>Extrema annotations (lines 165-177)\<close>

datatype ext_type = ExtMax | ExtMin

record annotation =
  ann_type :: ext_type
  ann_idx :: nat
  ann_value :: real
  ann_text_y :: real

definition annotate_ext :: "real list \<Rightarrow> real \<Rightarrow> real \<Rightarrow> real \<Rightarrow> ext_type \<times> real \<Rightarrow> annotation" where
  "annotate_ext rs mx mn rate_range spec =
     (let (ext, offset) = spec;
          idx = (case ext of ExtMax \<Rightarrow> first_index mx rs | ExtMin \<Rightarrow> first_index mn rs);
          v = rs ! idx
      in \<lparr>ann_type = ext, ann_idx = idx, ann_value = v,
          ann_text_y = v + rate_range * 0.1 * offset\<rparr>)"

definition extrema_annotations :: "real list \<Rightarrow> annotation list" where
  "extrema_annotations rs =
     (if length rs > 1
      then (case (series_max rs, series_min rs) of
              (Some mx, Some mn) \<Rightarrow>
                (let rate_range = mx - mn
                 in if rate_range > 0
                    then map (annotate_ext rs mx mn rate_range) [(ExtMax, 1), (ExtMin, - 1)]
                    else [])
            | _ \<Rightarrow> [])
      else [])"

section \<open>Tick sampling (lines 183-194)\<close>

text \<open>
  \<open>np.linspace(start, stop, num, dtype=int)\<close>: \<open>num\<close> samples \<open>start + i * step\<close> with
  \<open>step = (stop - start) / (num - 1)\<close>, the last one set to \<open>stop\<close>, then floored
  (computed here without rounding error).
\<close>

definition linspace_int :: "real \<Rightarrow> real \<Rightarrow> nat \<Rightarrow> int list" where
  "linspace_int start stop num =
     (if num = 0 then []
      else if num = 1 then [\<lfloor>start\<rfloor>]
      else map (\<lambda>i. \<lfloor>of_nat i * ((stop - start) / of_nat (num - 1)) + start\<rfloor>) [0..<num - 1]
           @ [\<lfloor>stop\<rfloor>])"

text \<open>\<open>plot_df.at[i, 'date_label']\<close> for each index; a label outside the frame is a \<open>KeyError\<close>.\<close>

fun at_all :: "string list \<Rightarrow> int list \<Rightarrow> py_error + string list" where
  "at_all col [] = Inr []"
| "at_all col (i # rest) =
     (if 0 \<le> i \<and> i < int (length col)
      then (case at_all col rest of Inl e \<Rightarrow> Inl e | Inr ls \<Rightarrow> Inr (col ! nat i # ls))
      else Inl KeyError)"

text \<open>
  The result is \<open>None\<close> when the function returns without touching the axis (the default
  ticks stay), and the tick positions with their labels otherwise.
\<close>

definition set_smart_ticks :: "string list \<Rightarrow> py_error + (int list \<times> string list) option" where
  "set_smart_ticks date_label =
     (let n = length date_label
      in if n \<le> 1 then Inr None
         else let num_ticks = min n 10;
                  indices = linspace_int 0 (of_nat n - 1) num_ticks
              in case at_all date_label indices of
                   Inl e \<Rightarrow> Inl e
                 | Inr labels \<Rightarrow> Inr (Some (indices, labels)))"

section \<open>The chart and the pyplot state\<close>

record chart =
  chart_bars :: "real list"
  chart_vmin :: "real option"
  chart_vmax :: "real option"
  chart_colors :: "real option list"
  chart_dense :: bool
  chart_labels :: "bar_label list"
  chart_line :: "real list"
  chart_annotations :: "annotation list"
  chart_ticks :: "(int list \<times> string list) option"

text \<open>
  Everything drawn between \<open>plt.subplots\<close> and \<open>plt.tight_layout\<close>. \<open>strftime\<close> is
  \<open>dt.strftime('%m-%d')\<close>, a parameter; the label step raises before the later steps run.
\<close>

definition draw_chart :: "(int \<Rightarrow> string) \<Rightarrow> real \<times> real \<Rightarrow> plot_args \<Rightarrow> plot_row list
                          \<Rightarrow> py_error + chart" where
  "draw_chart strftime ylim args plot_df =
     (let ds = map rate_change plot_df;
          rs = map rate plot_df;
          lo = vmin ds;
          hi = vmax ds
      in case color_norm lo hi ds of
           Inl e \<Rightarrow> Inl e
         | Inr colors \<Rightarrow>
             (case bar_labels ylim (fst (figsize args)) (max_bar_labels args) ds of
                Inl e \<Rightarrow> Inl e
              | Inr labels \<Rightarrow>
                  (case set_smart_ticks (map (strftime \<circ> time_formatted) plot_df) of
                     Inl e \<Rightarrow> Inl e
                   | Inr ticks \<Rightarrow>
                       Inr \<lparr>chart_bars = ds, chart_vmin = lo, chart_vmax = hi,
                            chart_colors = colors, chart_dense = (length plot_df > 200),
                            chart_labels = labels, chart_line = rs,
                            chart_annotations = extrema_annotations rs,
                            chart_ticks = ticks\<rparr>)))"

text \<open>
  pyplot keeps a stack of open figures, the current one first. A figure is \<open>None\<close> while
  nothing has been drawn on it. \<open>plt.savefig\<close> renders the current figure and, like every
  pyplot call that needs one, makes a new empty figure when none is open. An image is
  what was rendered and at which resolution; PNG encoding and base64 are injective, so the
  returned text blob is identified with the image it encodes.
\<close>

record 'c image =
  image_of :: "'c option"
  image_dpi :: nat

record 'c pyplot =
  open_figures :: "'c option list"
  files :: "string \<Rightarrow> 'c image option"

definition plt_close_all :: "'c pyplot \<Rightarrow> 'c pyplot" where
  "plt_close_all st = st\<lparr>open_figures := []\<rparr>"

definition plt_figure :: "'c pyplot \<Rightarrow> 'c pyplot" where
  "plt_figure st = st\<lparr>open_figures := None # open_figures st\<rparr>"

definition plt_gcf :: "'c pyplot \<Rightarrow> 'c pyplot" where
  "plt_gcf st = (case open_figures st of [] \<Rightarrow> plt_figure st | _ \<Rightarrow> st)"

definition plt_draw :: "'c \<Rightarrow> 'c pyplot \<Rightarrow> 'c pyplot" where
  "plt_draw c st =
     (case open_figures st of
        [] \<Rightarrow> st\<lparr>open_figures := [Some c]\<rparr>
      | _ # others \<Rightarrow> st\<lparr>open_figures := Some c # others\<rparr>)"

definition plt_close :: "'c pyplot \<Rightarrow> 'c pyplot" where
  "plt_close st = st\<lparr>open_figures := tl (open_figures st)\<rparr>"

definition current_image :: "nat \<Rightarrow> 'c pyplot \<Rightarrow> 'c image" where
  "current_image dpi st =
     (case open_figures st of
        [] \<Rightarrow> \<lparr>image_of = None, image_dpi = dpi\<rparr>
      | fig # _ \<Rightarrow> \<lparr>image_of = fig, image_dpi = dpi\<rparr>)"

text \<open>\<open>plt.savefig(buffer, dpi)\<close>: the rendered image and the state left behind.\<close>

definition savefig_buffer :: "nat \<Rightarrow> 'c pyplot \<Rightarrow> 'c image \<times> 'c pyplot" where
  "savefig_buffer dpi st = (current_image dpi (plt_gcf st), plt_gcf st)"

text \<open>\<open>plt.savefig(path, dpi)\<close>: the same rendering, written to the file.\<close>

definition savefig_file :: "string \<Rightarrow> nat \<Rightarrow> 'c pyplot \<Rightarrow> 'c pyplot" where
  "savefig_file path dpi st =
     (let st' = plt_gcf st
      in st'\<lparr>files := (files st')(path \<mapsto> current_image dpi st')\<rparr>)"

record plot_result =
  result_fig :: chart
  img_base64 :: "chart image"

text \<open>
  The whole call. \<open>if output_file:\<close> is false for \<open>None\<close> and for the empty string.
\<close>

definition plot_rate_changes :: "(int \<Rightarrow> string) \<Rightarrow> real \<times> real \<Rightarrow> data_frame \<Rightarrow> plot_args
     \<Rightarrow> chart pyplot \<Rightarrow> py_error + (plot_result \<times> chart pyplot)" where
  "plot_rate_changes strftime ylim df args st0 =
     (let (plot_df, fr) = preprocess df (first_rate args);
          st1 = plt_figure (plt_close_all st0)
      in case draw_chart strftime ylim args plot_df of
           Inl e \<Rightarrow> Inl e
         | Inr ch \<Rightarrow>
             (let st2 = plt_draw ch st1;
                  (img, st3) = savefig_buffer 100 st2;
                  st4 = plt_close st3;
                  st5 = (case output_file args of
                           None \<Rightarrow> st4
                         | Some path \<Rightarrow> if path = [] then st4 else savefig_file path 150 st4)
              in Inr (\<lparr>result_fig = ch, img_base64 = img\<rparr>, st5)))"

section \<open>Correlation heat map\<close>

text \<open>
  A table is a list of named columns. \<open>DataFrame.corr\<close> is pandas' own routine and is a
  parameter \<open>corr_fn\<close>: it returns the matrix or raises. \<open>np.random.uniform(-1, 1, (n, n))\<close>
  is a parameter too: \<open>rnd i j\<close> is the number drawn for cell \<open>(i, j)\<close>.
\<close>

type_synonym table = "(string \<times> real list) list"

record corr_matrix =
  corr_index :: "string list"
  corr_values :: "real list list"

definition columns :: "table \<Rightarrow> string list" where
  "columns data = map fst data"

definition set_entry :: "real list list \<Rightarrow> nat \<Rightarrow> nat \<Rightarrow> real \<Rightarrow> real list list" where
  "set_entry m i j v = m[i := (m ! i)[j := v]]"

text \<open>
  Lines 48-59, the \<open>except\<close> branch: the random matrix, then the loop that writes 1.0 on
  the diagonal, then the loop that copies the upper triangle to the lower.
\<close>

definition fallback_matrix :: "(nat \<Rightarrow> nat \<Rightarrow> real) \<Rightarrow> string list \<Rightarrow> corr_matrix" where
  "fallback_matrix rnd metrics =
     (let n = length metrics;
          m0 = map (\<lambda>i. map (rnd i) [0..<n]) [0..<n];
          m1 = fold (\<lambda>i m. set_entry m i i 1) [0..<n] m0;
          m2 = fold (\<lambda>i m. fold (\<lambda>j m'. set_entry m' j i (m' ! i ! j)) [Suc i..<n] m) [0..<n] m1
      in \<lparr>corr_index = metrics, corr_values = m2\<rparr>)"

text \<open>Lines 43-59: \<open>try: corr = data.corr(...) except Exception: ...\<close>\<close>

definition corr_or_fallback :: "(table \<Rightarrow> string \<Rightarrow> py_error + corr_matrix) \<Rightarrow> (nat \<Rightarrow> nat \<Rightarrow> real)
     \<Rightarrow> table \<Rightarrow> string \<Rightarrow> corr_matrix" where
  "corr_or_fallback corr_fn rnd data meth =
     (case corr_fn data meth of
        Inr c \<Rightarrow> c
      | Inl e \<Rightarrow> fallback_matrix rnd (columns data))"

text \<open>
  Lines 61-66. \<open>np.triu\<close> of an all-True array keeps the cells with \<open>i \<le> j\<close>;
  \<open>np.fill_diagonal(mask, False)\<close> clears the diagonal. seaborn does not show a cell
  whose mask entry is True.
\<close>

definition np_triu_ones :: "real list list \<Rightarrow> bool list list" where
  "np_triu_ones m = map (\<lambda>i. map (\<lambda>j. i \<le> j) [0..<length (m ! i)]) [0..<length m]"

definition np_fill_diagonal :: "bool list list \<Rightarrow> bool \<Rightarrow> bool list list" where
  "np_fill_diagonal msk v = map (\<lambda>i. (msk ! i)[i := v]) [0..<length msk]"

definition heatmap_mask :: "corr_matrix \<Rightarrow> bool \<Rightarrow> bool \<Rightarrow> bool list list option" where
  "heatmap_mask corr mask_half diagonal =
     (if mask_half
      then Some (if \<not> diagonal
                 then np_fill_diagonal (np_triu_ones (corr_values corr)) False
                 else np_triu_ones (corr_values corr))
      else None)"

definition cell_hidden :: "bool list list option \<Rightarrow> nat \<Rightarrow> nat \<Rightarrow> bool" where
  "cell_hidden msk i j = (case msk of None \<Rightarrow> False | Some m \<Rightarrow> m ! i ! j)"

record heatmap =
  hm_corr :: corr_matrix
  hm_mask :: "bool list list option"
  hm_annot :: bool
  hm_method :: string

datatype heat_fig = Single heatmap | Panels "heatmap list"

record heatmap_args =
  method_name :: string
  annotate :: bool
  mask_half :: bool
  diagonal :: bool
  heat_output_file :: "string option"

definition generate_correlation_heatmap :: "(table \<Rightarrow> string \<Rightarrow> py_error + corr_matrix)
     \<Rightarrow> (nat \<Rightarrow> nat \<Rightarrow> real) \<Rightarrow> table \<Rightarrow> heatmap_args \<Rightarrow> heat_fig pyplot
     \<Rightarrow> py_error + (heat_fig image \<times> heat_fig pyplot)" where
  "generate_correlation_heatmap corr_fn rnd data args st0 =
     (let corr = corr_or_fallback corr_fn rnd data (method_name args);
          msk = heatmap_mask corr (mask_half args) (diagonal args);
          st1 = plt_figure st0;
          st2 = plt_draw (Single \<lparr>hm_corr = corr, hm_mask = msk, hm_annot = annotate args,
                                  hm_method = method_name args\<rparr>) st1;
          (img, st3) = savefig_buffer 150 st2;
          st4 = plt_close st3;
          st5 = (case heat_output_file args of
                   None \<Rightarrow> st4
                 | Some path \<Rightarrow> if path = [] then st4 else savefig_file path 150 st4)
      in Inr (img, st5))"

text \<open>\<open>data[target_variables]\<close>: the named columns in the order asked for.\<close>

fun select_columns :: "table \<Rightarrow> string list \<Rightarrow> py_error + table" where
  "select_columns data [] = Inr []"
| "select_columns data (v # vs) =
     (case map_of data v of
        None \<Rightarrow> Inl KeyError
      | Some col \<Rightarrow>
          (case select_columns data vs of Inl e \<Rightarrow> Inl e | Inr t \<Rightarrow> Inr ((v, col) # t)))"

definition method_output_file :: "string option \<Rightarrow> string \<Rightarrow> string option" where
  "method_output_file out m =
     (case out of
        None \<Rightarrow> None
      | Some path \<Rightarrow> if path = [] then None else Some (path @ ''_'' @ m @ ''.png''))"

text \<open>
  Lines 139-148: one heat map per method; call \<open>k\<close> draws its own random numbers
  \<open>rnds k\<close> should it need the fallback.
\<close>

fun per_method :: "(table \<Rightarrow> string \<Rightarrow> py_error + corr_matrix) \<Rightarrow> (nat \<Rightarrow> nat \<Rightarrow> nat \<Rightarrow> real)
     \<Rightarrow> table \<Rightarrow> string option \<Rightarrow> nat \<Rightarrow> string list
     \<Rightarrow> (string \<rightharpoonup> heat_fig image) \<Rightarrow> heat_fig pyplot
     \<Rightarrow> py_error + ((string \<rightharpoonup> heat_fig image) \<times> heat_fig pyplot)" where
  "per_method corr_fn rnds data out k [] result_images st = Inr (result_images, st)"
| "per_method corr_fn rnds data out k (m # ms) result_images st =
     (case generate_correlation_heatmap corr_fn (rnds k) data
             \<lparr>method_name = m, annotate = True, mask_half = True, diagonal = False,
              heat_output_file = method_output_file out m\<rparr> st of
        Inl e \<Rightarrow> Inl e
      | Inr (img, st') \<Rightarrow>
          per_method corr_fn rnds data out (Suc k) ms (result_images(m \<mapsto> img)) st')"

text \<open>Lines 154-171: the panels of the combined figure; \<open>corr\<close> is called with no handler.\<close>

fun combined_panels :: "(table \<Rightarrow> string \<Rightarrow> py_error + corr_matrix) \<Rightarrow> table \<Rightarrow> string list
     \<Rightarrow> py_error + heatmap list" where
  "combined_panels corr_fn data [] = Inr []"
| "combined_panels corr_fn data (m # ms) =
     (case corr_fn data m of
        Inl e \<Rightarrow> Inl e
      | Inr corr \<Rightarrow>
          (case combined_panels corr_fn data ms of
             Inl e \<Rightarrow> Inl e
           | Inr hs \<Rightarrow>
               Inr (\<lparr>hm_corr = corr, hm_mask = Some (np_triu_ones (corr_values corr)),
                     hm_annot = True, hm_method = m\<rparr> # hs)))"

definition generate_advanced_correlation_heatmap ::
    "(table \<Rightarrow> string \<Rightarrow> py_error + corr_matrix) \<Rightarrow> (nat \<Rightarrow> nat \<Rightarrow> nat \<Rightarrow> real) \<Rightarrow> table
     \<Rightarrow> string list option \<Rightarrow> string list option \<Rightarrow> string option \<Rightarrow> heat_fig pyplot
     \<Rightarrow> py_error + ((string \<rightharpoonup> heat_fig image) \<times> heat_fig pyplot)" where
  "generate_advanced_correlation_heatmap corr_fn rnds data target_variables methods_opt out st0 =
     (let methods = (case methods_opt of None \<Rightarrow> [''pearson'', ''spearman''] | Some ms \<Rightarrow> ms);
          targets = (case target_variables of None \<Rightarrow> columns data | Some vs \<Rightarrow> vs)
      in case select_columns data targets of
           Inl e \<Rightarrow> Inl e
         | Inr filtered_data \<Rightarrow>
             (case per_method corr_fn rnds filtered_data out 0 methods Map.empty st0 of
                Inl e \<Rightarrow> Inl e
              | Inr (result_images, st1) \<Rightarrow>
                  if length methods > 1
                  then (case combined_panels corr_fn filtered_data methods of
                          Inl e \<Rightarrow> Inl e
                        | Inr hs \<Rightarrow>
                            (let st2 = plt_draw (Panels hs) (plt_figure st1);
                                 (img, st3) = savefig_buffer 150 st2;
                                 st4 = plt_close st3;
                                 st5 = (case out of
                                          None \<Rightarrow> st4
                                        | Some path \<Rightarrow>
                                            if path = [] then st4
                                            else savefig_file (path @ ''_combined.png'') 150 st4)
                             in Inr (result_images(''combined'' \<mapsto> img), st5)))
                  else Inr (result_images, st1)))"

text \<open>The \<open>n \<times> n\<close> array whose cell \<open>(i, j)\<close> holds \<open>f i j\<close>.\<close>

definition mat :: "nat \<Rightarrow> (nat \<Rightarrow> nat \<Rightarrow> real) \<Rightarrow> real list list" where
  "mat n f = map (\<lambda>i. map (f i) [0..<n]) [0..<n]"

text \<open>The closed form of the tick positions chosen for a frame of \<open>n\<close> rows.\<close>

definition tick_indices :: "nat \<Rightarrow> int list" where
  "tick_indices n = map (\<lambda>i. int ((i * (n - 1)) div (min n 10 - 1))) [0..<min n 10]"

section \<open>Properties of the colour normalisation\<close>

lemma series_min_eq: "series_min vs = (if vs = [] then None else Some (Min (set vs)))"
proof (cases vs)
  case Nil
  then show ?thesis by (simp add: series_min_def)
next
  case (Cons v rest)
  then show ?thesis using Min.set_eq_fold[of v rest] by (simp add: series_min_def)
qed

lemma series_max_eq: "series_max vs = (if vs = [] then None else Some (Max (set vs)))"
proof (cases vs)
  case Nil
  then show ?thesis by (simp add: series_max_def)
next
  case (Cons v rest)
  then show ?thesis using Max.set_eq_fold[of v rest] by (simp add: series_max_def)
qed

lemma top_count_attained:
  assumes "vs \<noteq> []"
  shows "\<exists>v\<in>set vs. count_list vs v = fold max (map (count_list vs) vs) 0"
proof -
  obtain x xs where vs: "vs = x # xs" using assms by (cases vs) auto
  let ?cs = "map (count_list vs) vs"
  have ne: "set ?cs \<noteq> {}" using assms by simp
  have "fold max ?cs 0 = Max (set (0 # ?cs))" by (simp only: Max.set_eq_fold)
  also have "\<dots> = Max (insert 0 (set ?cs))" by simp
  also have "\<dots> = max 0 (Max (set ?cs))" using ne by (simp add: Max_insert)
  also have "\<dots> = Max (set ?cs)" by simp
  finally have "fold max ?cs 0 = Max (set ?cs)" .
  moreover have "Max (set ?cs) \<in> set ?cs" using ne by (intro Max_in) auto
  ultimately show ?thesis by auto
qed

lemma series_mode_subset: "set (series_mode vs) \<subseteq> set vs"
  by (auto simp: series_mode_def Let_def)

lemma series_mode_nonempty: "vs \<noteq> [] \<Longrightarrow> series_mode vs \<noteq> []"
proof -
  assume "vs \<noteq> []"
  then obtain v where "v \<in> set vs" "count_list vs v = fold max (map (count_list vs) vs) 0"
    using top_count_attained by blast
  then have "v \<in> set (series_mode vs)" by (simp add: series_mode_def Let_def)
  then show ?thesis by auto
qed

lemma get_mode_pd_member:
  assumes "vs \<noteq> []"
  shows "\<exists>m\<in>set vs. get_mode_pd vs = Some m"
proof -
  obtain m ms where ms: "series_mode vs = m # ms"
    using series_mode_nonempty[OF assms] by (cases "series_mode vs") auto
  then have "m \<in> set vs" using series_mode_subset[of vs] by auto
  then show ?thesis using assms ms by (auto simp: get_mode_pd_def)
qed

lemma pos_mode_positive:
  assumes "positive_values ds \<noteq> []"
  shows "\<exists>m\<in>set ds. 0 < m \<and> pos_mode ds = Some m"
proof -
  obtain m where m: "m \<in> set (positive_values ds)" "get_mode_pd (positive_values ds) = Some m"
    using get_mode_pd_member[OF assms] by blast
  then have "m \<in> set ds" "0 < m" by (auto simp: positive_values_def)
  then show ?thesis using m by (auto simp: pos_mode_def py_or_def)
qed

lemma neg_mode_negative:
  assumes "negative_values ds \<noteq> []"
  shows "\<exists>m\<in>set ds. m < 0 \<and> neg_mode ds = Some m"
proof -
  obtain m where m: "m \<in> set (negative_values ds)" "get_mode_pd (negative_values ds) = Some m"
    using get_mode_pd_member[OF assms] by blast
  then have "m \<in> set ds" "m < 0" by (auto simp: negative_values_def)
  then show ?thesis using m by (auto simp: neg_mode_def py_or_def)
qed

lemma positive_values_empty_iff: "positive_values ds = [] \<longleftrightarrow> (\<forall>d\<in>set ds. \<not> 0 < d)"
  by (auto simp: positive_values_def filter_empty_conv)

lemma negative_values_empty_iff: "negative_values ds = [] \<longleftrightarrow> (\<forall>d\<in>set ds. \<not> d < 0)"
  by (auto simp: negative_values_def filter_empty_conv)

text \<open>
  C2: when the deltas contain a strictly positive and a strictly negative value, the
  normalisation range satisfies \<open>vmin \<le> 0 \<le> vmax\<close>; when no delta is negative, \<open>vmin\<close> is
  the minimum of all deltas, and when no delta is positive, \<open>vmax\<close> is their maximum (NaN,
  here \<open>None\<close>, for the empty frame, as pandas' \<open>min\<close> and \<open>max\<close> give).
\<close>

theorem color_range_signs:
  "((\<exists>d\<in>set ds. 0 < d) \<and> (\<exists>d\<in>set ds. d < 0)
      \<longrightarrow> (\<exists>a b. vmin ds = Some a \<and> vmax ds = Some b \<and> a \<le> 0 \<and> 0 \<le> b))
   \<and> ((\<forall>d\<in>set ds. \<not> d < 0) \<longrightarrow> vmin ds = (if ds = [] then None else Some (Min (set ds))))
   \<and> ((\<forall>d\<in>set ds. \<not> 0 < d) \<longrightarrow> vmax ds = (if ds = [] then None else Some (Max (set ds))))"
proof (intro conjI impI)
  assume both: "(\<exists>d\<in>set ds. 0 < d) \<and> (\<exists>d\<in>set ds. d < 0)"
  then have p: "positive_values ds \<noteq> []" and n: "negative_values ds \<noteq> []"
    by (auto simp: positive_values_empty_iff negative_values_empty_iff)
  obtain a where a: "a < 0" "neg_mode ds = Some a" using neg_mode_negative[OF n] by blast
  obtain b where b: "0 < b" "pos_mode ds = Some b" using pos_mode_positive[OF p] by blast
  show "\<exists>a b. vmin ds = Some a \<and> vmax ds = Some b \<and> a \<le> 0 \<and> 0 \<le> b"
    using a b p n by (auto simp: vmin_def vmax_def)
next
  assume "\<forall>d\<in>set ds. \<not> d < 0"
  then have "negative_values ds = []" by (simp add: negative_values_empty_iff)
  then show "vmin ds = (if ds = [] then None else Some (Min (set ds)))"
    by (simp add: vmin_def series_min_eq)
next
  assume "\<forall>d\<in>set ds. \<not> 0 < d"
  then have "positive_values ds = []" by (simp add: positive_values_empty_iff)
  then show "vmax ds = (if ds = [] then None else Some (Max (set ds)))"
    by (simp add: vmax_def series_max_eq)
qed

theorem color_range_signs_witness:
  "(\<exists>a b. vmin [0, 20, - 40, 0] = Some a \<and> vmax [0, 20, - 40, 0] = Some b \<and> a \<le> 0 \<and> 0 \<le> b)
   \<and> vmin [0, 20, 5] = Some 0 \<and> vmax [0, - 40, - 3] = Some 0"
  using color_range_signs[of "[0, 20, - 40, 0]"] color_range_signs[of "[0, 20, 5]"]
    color_range_signs[of "[0, - 40, - 3]"]
  by simp

lemma vmin_le_vmax:
  assumes "vmin ds = Some a" "vmax ds = Some b"
  shows "a \<le> b"
proof -
  have ne: "ds \<noteq> []" using assms
    by (auto simp: vmin_def negative_values_def series_min_def)
  have fin: "finite (set ds)" by simp
  show ?thesis
  proof (cases "negative_values ds = []")
    case nT: True
    then have a: "a = Min (set ds)" using assms ne by (simp add: vmin_def series_min_eq)
    show ?thesis
    proof (cases "positive_values ds = []")
      case True
      then have "b = Max (set ds)" using assms ne by (simp add: vmax_def series_max_eq)
      moreover obtain x where "x \<in> set ds" using ne by (cases ds) auto
      then have "Min (set ds) \<le> x" "x \<le> Max (set ds)" by simp_all
      ultimately show ?thesis using a by simp
    next
      case False
      then obtain m where "m \<in> set ds" "pos_mode ds = Some m" using pos_mode_positive by blast
      then show ?thesis using a assms False by (auto simp: vmax_def)
    qed
  next
    case nF: False
    then obtain m where m: "m \<in> set ds" "m < 0" "neg_mode ds = Some m"
      using neg_mode_negative by blast
    then have a: "a = m" using assms nF by (simp add: vmin_def)
    show ?thesis
    proof (cases "positive_values ds = []")
      case True
      then have "b = Max (set ds)" using assms ne by (simp add: vmax_def series_max_eq)
      then show ?thesis using a m by simp
    next
      case False
      then obtain p where "0 < p" "pos_mode ds = Some p" using pos_mode_positive by blast
      then show ?thesis using a m assms False by (auto simp: vmax_def)
    qed
  qed
qed

lemma color_norm_ok: "\<exists>cs. color_norm (vmin ds) (vmax ds) ds = Inr cs"
proof (cases "vmin ds")
  case None
  then show ?thesis by (simp add: color_norm_def)
next
  case (Some a)
  show ?thesis
  proof (cases "vmax ds")
    case None
    then show ?thesis using Some by (simp add: color_norm_def)
  next
    case b: (Some b)
    have "a \<le> b" using vmin_le_vmax[OF Some b] .
    then show ?thesis using Some b by (auto simp: color_norm_def)
  qed
qed

text \<open>
  What the code computes in place of the median: the mode step of a non-empty subset
  without repeated values returns its smallest element.
\<close>

lemma sorted_hd_Min:
  assumes "sorted xs" "xs \<noteq> []"
  shows "hd xs = Min (set xs)"
proof -
  obtain x rest where xs: "xs = x # rest" using assms(2) by (cases xs) auto
  then have "\<forall>y\<in>set xs. x \<le> y" using assms(1) by auto
  then have "Min (set xs) = x" using xs by (intro Min_eqI) auto
  then show ?thesis using xs by simp
qed

lemma count_list_distinct: "distinct vs \<Longrightarrow> v \<in> set vs \<Longrightarrow> count_list vs v = 1"
  by (induction vs) (auto simp: count_list_0_iff)

lemma get_mode_pd_distinct:
  assumes "distinct vs" "vs \<noteq> []"
  shows "get_mode_pd vs = Some (Min (set vs))"
proof -
  have one: "\<forall>v\<in>set vs. count_list vs v = 1"
    using assms(1) by (simp add: count_list_distinct)
  obtain v where "v \<in> set vs" "count_list vs v = fold max (map (count_list vs) vs) 0"
    using top_count_attained[OF assms(2)] by blast
  then have top: "fold max (map (count_list vs) vs) 0 = 1" using one by simp
  have "filter (\<lambda>v. count_list vs v = 1) vs = vs" using one by (simp add: filter_id_conv)
  then have m: "series_mode vs = sort vs"
    using assms(1) by (simp add: series_mode_def top distinct_remdups_id)
  have ne: "sort vs \<noteq> []" using assms(2) by (metis length_sort length_0_conv)
  have "hd (sort vs) = Min (set (sort vs))"
    using ne by (intro sorted_hd_Min) simp_all
  then have h: "hd (sort vs) = Min (set vs)" by simp
  obtain x rest where s: "sort vs = x # rest" using ne by (cases "sort vs") auto
  then have "x = Min (set vs)" using h by simp
  then show ?thesis using assms(2) m s by (simp add: get_mode_pd_def)
qed

text \<open>
  C1: for a signed subset without repeated values the reference should be the subset's
  median. It is not: \<open>Series.mode()\<close> of such a subset returns all its values in ascending
  order, so \<open>get_mode_pd\<close> returns the smallest one (\<open>get_mode_pd_distinct\<close>) and the
  \<open>or\<close> never reaches the median.
  For the rates 100, 110, 130, 160, 150, 130, 100 the positive deltas are 10, 20, 30 and the
  negative ones -10, -20, -30: the references are 10 and -30, the medians 20 and -20.
\<close>

theorem mode_is_not_median_at_distinct_values:
  "map rate_change (fst (preprocess
       (Rates [(1, 100), (2, 110), (3, 130), (4, 160), (5, 150), (6, 130), (7, 100)]) 0))
     = [0, 10, 20, 30, - 10, - 20, - 30]
   \<and> distinct (positive_values [0, 10, 20, 30, - 10, - 20, - 30])
   \<and> vmax [0, 10, 20, 30, - 10, - 20, - 30] = Some 10
   \<and> series_median (positive_values [0, 10, 20, 30, - 10, - 20, - 30]) = Some 20
   \<and> distinct (negative_values [0, 10, 20, 30, - 10, - 20, - 30])
   \<and> vmin [0, 10, 20, 30, - 10, - 20, - 30] = Some (- 30)
   \<and> series_median (negative_values [0, 10, 20, 30, - 10, - 20, - 30]) = Some (- 20)"
  by (simp add: preprocess_def diff_fillna_def vmax_def vmin_def pos_mode_def neg_mode_def
      py_or_def get_mode_pd_def series_mode_def series_median_def positive_values_def
      negative_values_def)

lemmas eval_defs = plot_rate_changes_def preprocess_def diff_fillna_def draw_chart_def
  vmax_def vmin_def pos_mode_def neg_mode_def py_or_def get_mode_pd_def series_mode_def
  series_median_def positive_values_def negative_values_def series_min_def series_max_def
  color_norm_def bar_labels_def label_interval_of_def make_label_def format_1f_def
  round_half_even_def show_nat.simps digit_char_def np_clip_def extrema_annotations_def
  annotate_ext_def set_smart_ticks_def linspace_int_def plt_figure_def plt_close_all_def
  plt_gcf_def plt_draw_def plt_close_def current_image_def savefig_buffer_def savefig_file_def

section \<open>Properties of the bar labels\<close>

lemma make_label_sel:
  "label_idx (make_label ylim w n idx v) = idx"
  "label_value (make_label ylim w n idx v) = v"
  "label_text (make_label ylim w n idx v) = format_1f v"
  by (simp_all add: make_label_def Let_def split: prod.splits)

lemma label_loop_values:
  "distinct (map label_value (label_loop ylim w n k seen bars))
   \<and> set (map label_value (label_loop ylim w n k seen bars)) \<inter> seen = {}"
proof (induction bars arbitrary: seen)
  case Nil
  then show ?case by simp
next
  case (Cons b bars)
  obtain idx v where b: "b = (idx, v)" by (cases b)
  show ?case
  proof (cases "int idx mod k = 0 \<and> v \<notin> seen")
    case True
    have ih: "distinct (map label_value (label_loop ylim w n k (insert v seen) bars))"
      "set (map label_value (label_loop ylim w n k (insert v seen) bars)) \<inter> insert v seen = {}"
      using Cons.IH[of "insert v seen"] by simp_all
    then show ?thesis using True b by (auto simp: make_label_sel)
  next
    case False
    then show ?thesis using Cons.IH[of seen] b by auto
  qed
qed

lemma label_loop_all_seen:
  "\<forall>b\<in>set bars. snd b \<in> seen \<Longrightarrow> label_loop ylim w n k seen bars = []"
  by (induction bars arbitrary: seen) auto

lemma plot_rate_changes_chart:
  assumes "plot_rate_changes strftime ylim df args st = Inr (res, st')"
  shows "draw_chart strftime ylim args (fst (preprocess df (first_rate args))) = Inr (result_fig res)"
  using assms
  by (auto simp: plot_rate_changes_def Let_def split: prod.splits sum.splits)

lemma draw_chart_fields:
  assumes "draw_chart strftime ylim args plot_df = Inr ch"
  shows "bar_labels ylim (fst (figsize args)) (max_bar_labels args) (map rate_change plot_df)
           = Inr (chart_labels ch)"
    and "chart_annotations ch = extrema_annotations (map rate plot_df)"
    and "set_smart_ticks (map (strftime \<circ> time_formatted) plot_df) = Inr (chart_ticks ch)"
    and "chart_vmin ch = vmin (map rate_change plot_df)"
    and "chart_vmax ch = vmax (map rate_change plot_df)"
    and "chart_bars ch = map rate_change plot_df"
  using assms
  by (auto simp: draw_chart_def Let_def split: sum.splits)

lemma bar_labels_Inr:
  assumes "bar_labels ylim w mbl ds = Inr ls"
  shows "mbl \<noteq> 0 \<and> ls = label_loop ylim w (length ds) (max 1 (int (length ds) div mbl)) {}
                           (zip [0..<length ds] ds)"
  using assms by (auto simp: bar_labels_def label_interval_of_def split: if_splits)

text \<open>
  C5, as amended: the labelling step never emits two labels, consecutive or not, that carry
  the same delta value. The set \<open>seen_values\<close> holds the values, not their one-decimal
  texts, so nothing is promised about the texts of two different values.
\<close>

theorem labelled_values_distinct:
  assumes "plot_rate_changes strftime ylim df args st = Inr (res, st')"
  shows "distinct (map label_value (chart_labels (result_fig res)))"
proof -
  let ?ds = "map rate_change (fst (preprocess df (first_rate args)))"
  have "bar_labels ylim (fst (figsize args)) (max_bar_labels args) ?ds
          = Inr (chart_labels (result_fig res))"
    using draw_chart_fields(1)[OF plot_rate_changes_chart[OF assms]] .
  then show ?thesis using bar_labels_Inr label_loop_values by metis
qed

text \<open>
  C5 as stated fails: the rates 1500, 1500.01, 1500.03 give the deltas 0, 0.01 and 0.02,
  three different values, and the three consecutive labels all read 0.0.
\<close>

theorem distinct_values_can_share_text:
  "map label_text (case plot_rate_changes (\<lambda>t. []) (0, 0)
        (Rates [(1, 1500), (2, 1500.01), (3, 1500.03)])
        \<lparr>figsize = (18, 12), font_scale = 2.5, max_bar_labels = 15, first_rate = 0,
         output_file = None\<rparr>
        \<lparr>open_figures = [], files = (\<lambda>_. None)\<rparr> of
      Inl e \<Rightarrow> [] | Inr (res, st) \<Rightarrow> chart_labels (result_fig res))
   = [''0.0'', ''0.0'', ''0.0'']"
  by (simp add: eval_defs Let_def)

text \<open>
  C6 as stated fails for the labelling step: a frame with a single row has the delta 0,
  and bar 0 is labelled 0.0.
\<close>

theorem single_row_gets_a_label:
  "map label_text (case plot_rate_changes (\<lambda>t. []) (0, 0)
        (Rates [(1, 1500)])
        \<lparr>figsize = (18, 12), font_scale = 2.5, max_bar_labels = 15, first_rate = 0,
         output_file = None\<rparr>
        \<lparr>open_figures = [], files = (\<lambda>_. None)\<rparr> of
      Inl e \<Rightarrow> [] | Inr (res, st) \<Rightarrow> chart_labels (result_fig res))
   = [''0.0'']"
  by (simp add: eval_defs Let_def)

text \<open>
  Every label sits on a bar whose index is a multiple of the stride
  \<open>max 1 (N div max_bar_labels)\<close>.
\<close>

lemma label_loop_stride:
  "l \<in> set (label_loop ylim w n k seen bars)
     \<Longrightarrow> \<exists>b\<in>set bars. label_idx l = fst b \<and> int (fst b) mod k = 0"
proof (induction bars arbitrary: seen)
  case Nil
  then show ?case by simp
next
  case (Cons b bars)
  obtain idx v where b: "b = (idx, v)" by (cases b)
  show ?case
  proof (cases "int idx mod k = 0 \<and> v \<notin> seen")
    case True
    then have eq: "label_loop ylim w n k seen (b # bars)
        = make_label ylim w n idx v # label_loop ylim w n k (insert v seen) bars"
      unfolding b by simp
    then consider "l = make_label ylim w n idx v"
      | "l \<in> set (label_loop ylim w n k (insert v seen) bars)"
      using Cons.prems by auto
    then show ?thesis
    proof cases
      case 1
      then have "label_idx l = fst b" unfolding b by (simp add: make_label_sel)
      moreover have "int (fst b) mod k = 0" using True unfolding b by simp
      ultimately show ?thesis by (meson list.set_intros(1))
    next
      case 2
      from Cons.IH[OF 2] show ?thesis by (meson list.set_intros(2))
    qed
  next
    case False
    then have "label_loop ylim w n k seen (b # bars) = label_loop ylim w n k seen bars"
      unfolding b by auto
    then have "l \<in> set (label_loop ylim w n k seen bars)" using Cons.prems by simp
    from Cons.IH[OF this] show ?thesis by (meson list.set_intros(2))
  qed
qed

lemma bar_labels_member:
  assumes "bar_labels ylim w mbl ds = Inr ls" "l \<in> set ls"
  shows "l \<in> set (label_loop ylim w (length ds) (max 1 (int (length ds) div mbl)) {}
               (zip [0..<length ds] ds))"
proof -
  have ls: "ls = label_loop ylim w (length ds) (max 1 (int (length ds) div mbl)) {}
               (zip [0..<length ds] ds)"
    using bar_labels_Inr[OF assms(1)] by (rule conjunct2)
  show ?thesis using assms(2) unfolding ls .
qed

lemma label_loop_member_on_stride:
  assumes "l \<in> set (label_loop ylim w n k {} (zip [0..<m] ds))"
  shows "label_idx l < m \<and> int (label_idx l) mod k = 0"
proof -
  from label_loop_stride[OF assms]
  obtain b where b: "b \<in> set (zip [0..<m] ds)" "label_idx l = fst b" "int (fst b) mod k = 0"
    by (elim bexE conjE)
  obtain i d where id: "b = (i, d)" by (cases b)
  have "i \<in> set [0..<m]" using b(1) unfolding id by (rule set_zip_leftD)
  then have "i < m" by simp
  then show ?thesis using b(2,3) unfolding id by simp
qed

lemma labels_on_stride:
  assumes "bar_labels ylim w mbl ds = Inr ls" "l \<in> set ls"
  shows "label_idx l < length ds \<and> int (label_idx l) mod max 1 (int (length ds) div mbl) = 0"
  using bar_labels_member[OF assms] by (rule label_loop_member_on_stride)

section \<open>Properties of the tick sampler\<close>

lemma floor_interp: "\<lfloor>real i * real d / real m\<rfloor> = int ((i * d) div m)"
proof -
  have "real i * real d / real m = real (i * d) / real m" by simp
  then show ?thesis by (simp only: floor_divide_of_nat_eq)
qed

lemma linspace_from_zero:
  assumes "0 < m"
  shows "linspace_int 0 (real d) (Suc m) = map (\<lambda>i. int ((i * d) div m)) [0..<Suc m]"
proof -
  have "linspace_int 0 (real d) (Suc m)
      = map (\<lambda>i. \<lfloor>real i * real d / real m\<rfloor>) [0..<m] @ [\<lfloor>real d\<rfloor>]"
    using assms by (simp add: linspace_int_def)
  also have "\<dots> = map (\<lambda>i. int ((i * d) div m)) [0..<m] @ [int d]"
    by (simp only: floor_interp floor_of_nat)
  also have "\<dots> = map (\<lambda>i. int ((i * d) div m)) [0..<m] @ [int ((m * d) div m)]"
    using assms by simp
  also have "\<dots> = map (\<lambda>i. int ((i * d) div m)) [0..<Suc m]"
    by (simp only: upt_Suc_append[OF le0] map_append list.map)
  finally show ?thesis .
qed

lemma linspace_ticks:
  assumes "2 \<le> n"
  shows "linspace_int 0 (of_nat n - 1) (min n 10) = tick_indices n"
proof -
  obtain m where m: "min n 10 = Suc m" "0 < m"
    using assms by (cases "min n 10") auto
  have "real (n - 1) = real n - real 1" using assms by (intro of_nat_diff) linarith
  then have d: "real n - 1 = real (n - 1)" by (simp only: of_nat_1)
  have lin: "linspace_int 0 (real (n - 1)) (Suc m) = map (\<lambda>i. int ((i * (n - 1)) div m)) [0..<Suc m]"
    using m(2) by (rule linspace_from_zero)
  have eq: "tick_indices n = map (\<lambda>i. int ((i * (n - 1)) div m)) [0..<Suc m]"
    unfolding tick_indices_def m(1) by simp
  show ?thesis unfolding d m(1) eq using lin .
qed

lemma interp_strict:
  assumes "0 < m" "m \<le> d" "i < j"
  shows "(i * d) div m < (j * d) div (m::nat)"
proof -
  have "Suc i * d \<le> j * d" using assms(3) by (intro mult_le_mono1) simp
  then have "i * d + m \<le> j * d" using assms(2) by simp
  then have "(i * d + m) div m \<le> (j * d) div m" by (rule div_le_mono)
  moreover have "(i * d + m) div m = (i * d) div m + 1" using assms(1) by simp
  ultimately show ?thesis by simp
qed

lemma interp_le:
  assumes "0 < m" "i \<le> m"
  shows "(i * d) div m \<le> (d::nat)"
proof -
  have "i * d \<le> m * d" using assms(2) by (rule mult_le_mono1)
  then have "(i * d) div m \<le> (m * d) div m" by (rule div_le_mono)
  then show ?thesis using assms(1) by simp
qed

lemma tick_indices_length: "length (tick_indices n) = min n 10"
  by (simp add: tick_indices_def)

lemma tick_indices_nth:
  "k < min n 10 \<Longrightarrow> tick_indices n ! k = int ((k * (n - 1)) div (min n 10 - 1))"
  by (simp add: tick_indices_def)

lemma tick_indices_distinct:
  assumes "2 \<le> n"
  shows "distinct (tick_indices n)"
proof -
  let ?m = "min n 10 - 1"
  let ?f = "\<lambda>i. int ((i * (n - 1)) div ?m)"
  have m: "0 < ?m" "?m \<le> n - 1" using assms by auto
  have "inj_on ?f (set [0..<min n 10])"
  proof (rule inj_onI)
    fix i j assume eq: "?f i = ?f j"
    then have eq': "(i * (n - 1)) div ?m = (j * (n - 1)) div ?m" by (simp only: of_nat_eq_iff)
    show "i = j"
    proof (rule ccontr)
      assume "i \<noteq> j"
      then consider "i < j" | "j < i" by linarith
      then show False
      proof cases
        case 1
        then have "(i * (n - 1)) div ?m < (j * (n - 1)) div ?m"
          by (rule interp_strict[OF m])
        then show False using eq' by linarith
      next
        case 2
        then have "(j * (n - 1)) div ?m < (i * (n - 1)) div ?m"
          by (rule interp_strict[OF m])
        then show False using eq' by linarith
      qed
    qed
  qed
  then show ?thesis unfolding tick_indices_def by (simp only: distinct_map distinct_upt simp_thms)
qed

lemma tick_indices_bounds:
  assumes "2 \<le> n" "x \<in> set (tick_indices n)"
  shows "0 \<le> x" and "x \<le> int (n - 1)" and "x < int n"
proof -
  let ?m = "min n 10 - 1"
  have m: "0 < ?m" using assms(1) by auto
  obtain i where i: "i < min n 10" "x = int ((i * (n - 1)) div ?m)"
    using assms(2) unfolding tick_indices_def by auto
  have "i \<le> ?m" using i(1) by linarith
  then have le: "(i * (n - 1)) div ?m \<le> n - 1" by (rule interp_le[OF m])
  show "0 \<le> x" unfolding i(2) by (rule of_nat_0_le_iff)
  show "x \<le> int (n - 1)" unfolding i(2) using le by (simp only: of_nat_le_iff)
  have "n - 1 < n" using assms(1) by linarith
  then have "(i * (n - 1)) div ?m < n" using le by linarith
  then show "x < int n" unfolding i(2) by (simp only: of_nat_less_iff)
qed

lemma tick_indices_ends:
  assumes "2 \<le> n"
  shows "0 \<in> set (tick_indices n)" and "int (n - 1) \<in> set (tick_indices n)"
proof -
  let ?m = "min n 10 - 1"
  have m: "0 < ?m" "?m < min n 10" using assms by auto
  have "tick_indices n ! 0 = int ((0 * (n - 1)) div ?m)"
    using m by (intro tick_indices_nth) linarith
  then have "tick_indices n ! 0 = 0" by simp
  moreover have "0 < length (tick_indices n)" using m by (simp only: tick_indices_length)
  ultimately show "0 \<in> set (tick_indices n)" by (metis nth_mem)
  have "tick_indices n ! ?m = int ((?m * (n - 1)) div ?m)"
    using m(2) by (rule tick_indices_nth)
  then have "tick_indices n ! ?m = int (n - 1)" using m(1) by simp
  moreover have "?m < length (tick_indices n)" using m(2) by (simp only: tick_indices_length)
  ultimately show "int (n - 1) \<in> set (tick_indices n)" by (metis nth_mem)
qed

lemma tick_indices_Min:
  assumes "2 \<le> n"
  shows "Min (set (tick_indices n)) = 0"
proof (rule Min_eqI)
  show "finite (set (tick_indices n))" by (rule finite_set)
  show "0 \<in> set (tick_indices n)" using tick_indices_ends(1)[OF assms] .
  fix y assume "y \<in> set (tick_indices n)"
  then show "0 \<le> y" by (rule tick_indices_bounds(1)[OF assms])
qed

lemma tick_indices_Max:
  assumes "2 \<le> n"
  shows "Max (set (tick_indices n)) = int n - 1"
proof -
  have "Max (set (tick_indices n)) = int (n - 1)"
  proof (rule Max_eqI)
    show "finite (set (tick_indices n))" by (rule finite_set)
    show "int (n - 1) \<in> set (tick_indices n)" using tick_indices_ends(2)[OF assms] .
    fix y assume "y \<in> set (tick_indices n)"
    then show "y \<le> int (n - 1)" by (rule tick_indices_bounds(2)[OF assms])
  qed
  moreover have "int (n - 1) = int n - 1" using assms by (simp add: of_nat_diff)
  ultimately show ?thesis by simp
qed

lemma at_all_in_range:
  "\<forall>i\<in>set idxs. 0 \<le> i \<and> i < int (length col)
     \<Longrightarrow> at_all col idxs = Inr (map (\<lambda>i. col ! nat i) idxs)"
  by (induction idxs) auto

lemma set_smart_ticks_long:
  assumes "2 \<le> length col"
  shows "set_smart_ticks col
           = Inr (Some (tick_indices (length col), map (\<lambda>i. col ! nat i) (tick_indices (length col))))"
proof -
  have "at_all col (tick_indices (length col))
          = Inr (map (\<lambda>i. col ! nat i) (tick_indices (length col)))"
    using tick_indices_bounds(1,3)[OF assms] by (intro at_all_in_range) blast
  then show ?thesis using assms linspace_ticks[OF assms]
    by (simp add: set_smart_ticks_def Let_def)
qed

lemma set_smart_ticks_ok: "\<exists>t. set_smart_ticks col = Inr t"
proof (cases "2 \<le> length col")
  case True
  then show ?thesis using set_smart_ticks_long by blast
next
  case False
  then show ?thesis by (simp add: set_smart_ticks_def Let_def)
qed

text \<open>
  C7: for a frame of \<open>N \<ge> 2\<close> rows the sampler sets exactly \<open>min N 10\<close> pairwise distinct
  integer ticks, the \<open>k\<close>-th being the floor of the linear interpolation
  \<open>k * (N - 1) / (min N 10 - 1)\<close>; the smallest is 0 and the largest \<open>N - 1\<close>, and each
  tick carries the date label of its row. For \<open>N \<le> 1\<close> the axis is left untouched.
\<close>

theorem tick_sampler:
  "(2 \<le> length date_label \<longrightarrow>
      (\<exists>indices labels. set_smart_ticks date_label = Inr (Some (indices, labels))
         \<and> length indices = min (length date_label) 10
         \<and> distinct indices
         \<and> (\<forall>k<length indices.
               indices ! k = \<lfloor>real k * (real (length date_label - 1) / real (length indices - 1))\<rfloor>)
         \<and> Min (set indices) = 0
         \<and> Max (set indices) = int (length date_label) - 1
         \<and> labels = map (\<lambda>i. date_label ! nat i) indices))
   \<and> (length date_label \<le> 1 \<longrightarrow> set_smart_ticks date_label = Inr None)"
proof (intro conjI impI)
  assume n: "2 \<le> length date_label"
  let ?n = "length date_label"
  let ?ix = "tick_indices ?n"
  have len: "length ?ix = min ?n 10" by (rule tick_indices_length)
  have m: "0 < min ?n 10 - 1" using n by auto
  have interp: "\<forall>k<length ?ix. ?ix ! k = \<lfloor>real k * (real (?n - 1) / real (length ?ix - 1))\<rfloor>"
  proof (intro allI impI)
    fix k assume "k < length ?ix"
    then have "k < min ?n 10" using len by simp
    then have "?ix ! k = int ((k * (?n - 1)) div (min ?n 10 - 1))"
      by (rule tick_indices_nth)
    also have "\<dots> = \<lfloor>real k * real (?n - 1) / real (min ?n 10 - 1)\<rfloor>"
      by (simp only: floor_interp)
    also have "\<dots> = \<lfloor>real k * (real (?n - 1) / real (min ?n 10 - 1))\<rfloor>"
      by (simp only: times_divide_eq_right)
    finally show "?ix ! k = \<lfloor>real k * (real (?n - 1) / real (length ?ix - 1))\<rfloor>"
      by (simp add: len)
  qed
  show "\<exists>indices labels. set_smart_ticks date_label = Inr (Some (indices, labels))
         \<and> length indices = min (length date_label) 10
         \<and> distinct indices
         \<and> (\<forall>k<length indices.
               indices ! k = \<lfloor>real k * (real (length date_label - 1) / real (length indices - 1))\<rfloor>)
         \<and> Min (set indices) = 0
         \<and> Max (set indices) = int (length date_label) - 1
         \<and> labels = map (\<lambda>i. date_label ! nat i) indices"
  proof (intro exI conjI)
    show "set_smart_ticks date_label = Inr (Some (?ix, map (\<lambda>i. date_label ! nat i) ?ix))"
      using set_smart_ticks_long[OF n] .
    show "length ?ix = min ?n 10" using len .
    show "distinct ?ix" using tick_indices_distinct[OF n] .
    show "\<forall>k<length ?ix. ?ix ! k = \<lfloor>real k * (real (?n - 1) / real (length ?ix - 1))\<rfloor>"
      using interp .
    show "Min (set ?ix) = 0" using tick_indices_Min[OF n] .
    show "Max (set ?ix) = int ?n - 1" using tick_indices_Max[OF n] .
    show "map (\<lambda>i. date_label ! nat i) ?ix = map (\<lambda>i. date_label ! nat i) ?ix" by (rule refl)
  qed
next
  assume "length date_label \<le> 1"
  then show "set_smart_ticks date_label = Inr None"
    by (simp add: set_smart_ticks_def Let_def)
qed

text \<open>
  The statement at a frame of three rows and at a frame of one row.
\<close>

theorem tick_sampler_witness:
  "2 \<le> length [''01-01'', ''01-02'', ''01-05'']
   \<and> (\<exists>indices labels.
         set_smart_ticks [''01-01'', ''01-02'', ''01-05''] = Inr (Some (indices, labels))
         \<and> length indices = 3 \<and> distinct indices
         \<and> Min (set indices) = 0 \<and> Max (set indices) = 2)
   \<and> length [''01-01''] \<le> 1
   \<and> set_smart_ticks [''01-01''] = Inr None"
proof -
  have long: "2 \<le> length [''01-01'', ''01-02'', ''01-05'']" by simp
  have short: "length [''01-01''] \<le> 1" by simp
  have l3: "min (length [''01-01'', ''01-02'', ''01-05'']) 10 = 3"
    "int (length [''01-01'', ''01-02'', ''01-05'']) - 1 = 2" by simp_all
  from tick_sampler[of "[''01-01'', ''01-02'', ''01-05'']"] long
  obtain indices labels where
    "set_smart_ticks [''01-01'', ''01-02'', ''01-05''] = Inr (Some (indices, labels))"
    "length indices = min (length [''01-01'', ''01-02'', ''01-05'']) 10" "distinct indices"
    "Min (set indices) = 0"
    "Max (set indices) = int (length [''01-01'', ''01-02'', ''01-05'']) - 1"
    by blast
  then have "\<exists>indices labels.
         set_smart_ticks [''01-01'', ''01-02'', ''01-05''] = Inr (Some (indices, labels))
         \<and> length indices = 3 \<and> distinct indices
         \<and> Min (set indices) = 0 \<and> Max (set indices) = 2"
    unfolding l3 by blast
  moreover have "set_smart_ticks [''01-01''] = Inr None"
    using tick_sampler[of "[''01-01'']"] short by blast
  ultimately show ?thesis using long short by blast
qed

section \<open>The render as a whole\<close>

text \<open>
  The only exception the modelled steps can raise is the division by a zero
  \<open>max_bar_labels\<close>: the normalisation bounds are always ordered and every tick index is a
  row of the frame.
\<close>

lemma bar_labels_ok: "mbl \<noteq> 0 \<Longrightarrow> \<exists>ls. bar_labels ylim w mbl ds = Inr ls"
  by (simp add: bar_labels_def label_interval_of_def)

lemma draw_chart_total:
  assumes "max_bar_labels args \<noteq> 0"
  shows "\<exists>ch. draw_chart strftime ylim args plot_df = Inr ch"
proof -
  let ?ds = "map rate_change plot_df"
  obtain cs where cs: "color_norm (vmin ?ds) (vmax ?ds) ?ds = Inr cs"
    using color_norm_ok by blast
  obtain ls where ls: "bar_labels ylim (fst (figsize args)) (max_bar_labels args) ?ds = Inr ls"
    using bar_labels_ok[OF assms] by blast
  obtain t where t: "set_smart_ticks (map (strftime \<circ> time_formatted) plot_df) = Inr t"
    using set_smart_ticks_ok by blast
  show ?thesis using cs ls t by (simp add: draw_chart_def Let_def)
qed

lemma plot_rate_changes_total:
  assumes "max_bar_labels args \<noteq> 0"
  shows "\<exists>res st'. plot_rate_changes strftime ylim df args st = Inr (res, st')"
proof -
  obtain ch where "draw_chart strftime ylim args (fst (preprocess df (first_rate args))) = Inr ch"
    using draw_chart_total[OF assms] by blast
  then show ?thesis
    by (simp add: plot_rate_changes_def Let_def case_prod_beta)
qed

text \<open>
  The amended C5 at the frame of the spec's scenario (rates 1500, 1520, 1480, 1480).
\<close>

theorem labelled_values_distinct_witness:
  "\<exists>res st'. plot_rate_changes (\<lambda>t. []) (0, 0)
        (Rates [(1, 1500), (2, 1520), (3, 1480), (4, 1480)])
        \<lparr>figsize = (18, 12), font_scale = 2.5, max_bar_labels = 15, first_rate = 0,
         output_file = None\<rparr>
        \<lparr>open_figures = [], files = (\<lambda>_. None)\<rparr> = Inr (res, st')
      \<and> distinct (map label_value (chart_labels (result_fig res)))"
proof -
  let ?args = "\<lparr>figsize = (18, 12), font_scale = 2.5, max_bar_labels = 15, first_rate = 0,
         output_file = None\<rparr>"
  have "max_bar_labels ?args \<noteq> 0" by simp
  from plot_rate_changes_total[OF this]
  obtain res st' where r: "plot_rate_changes (\<lambda>t. []) (0, 0)
        (Rates [(1, 1500), (2, 1520), (3, 1480), (4, 1480)]) ?args
        \<lparr>open_figures = [], files = (\<lambda>_. None)\<rparr> = Inr (res, st')"
    by blast
  from labelled_values_distinct[OF r] r show ?thesis by blast
qed

lemma length_diff_fillna: "length (diff_fillna xs) = length xs"
  by (cases xs) (simp_all add: diff_fillna_def)

lemma diff_fillna_constant:
  assumes "\<forall>x\<in>set xs. x = c"
  shows "diff_fillna xs = replicate (length xs) 0"
proof (cases xs)
  case Nil
  then show ?thesis by (simp add: diff_fillna_def)
next
  case (Cons x rest)
  have "map (\<lambda>(prev, cur). cur - prev) (zip xs rest) = map (\<lambda>_. 0) (zip xs rest)"
  proof (rule map_cong[OF refl])
    fix p assume "p \<in> set (zip xs rest)"
    then have "(fst p, snd p) \<in> set (zip xs rest)" by simp
    then have "fst p \<in> set xs" "snd p \<in> set rest"
      by (rule set_zip_leftD, rule set_zip_rightD)
    then have "snd p \<in> set xs" using Cons by simp
    then have "fst p = c" "snd p = c" using assms \<open>fst p \<in> set xs\<close> by blast+
    then show "(case p of (prev, cur) \<Rightarrow> cur - prev) = 0" by (simp add: case_prod_beta)
  qed
  also have "\<dots> = replicate (length rest) 0" using Cons by (simp add: map_replicate_const)
  finally show ?thesis using Cons by (simp add: diff_fillna_def)
qed

lemma preprocess_Rates_changes:
  "map rate_change (fst (preprocess (Rates rs) fr)) = diff_fillna (map snd (sort_key fst rs))"
proof -
  let ?s = "sort_key fst rs"
  let ?c = "diff_fillna (map snd ?s)"
  have len: "length ?s = length ?c" by (simp add: length_diff_fillna)
  have "map rate_change (fst (preprocess (Rates rs) fr)) = map snd (zip ?s ?c)"
    by (simp add: preprocess_def Let_def case_prod_beta comp_def)
  also have "\<dots> = ?c" using len by (rule map_snd_zip)
  finally show ?thesis .
qed

lemma preprocess_Rates_rates:
  "map rate (fst (preprocess (Rates rs) fr)) = map snd (sort_key fst rs)"
proof -
  let ?s = "sort_key fst rs"
  let ?c = "diff_fillna (map snd ?s)"
  have len: "length ?s = length ?c" by (simp add: length_diff_fillna)
  have "map rate (fst (preprocess (Rates rs) fr)) = map snd (map fst (zip ?s ?c))"
    by (simp add: preprocess_def Let_def case_prod_beta comp_def)
  also have "map fst (zip ?s ?c) = ?s" using len by (rule map_fst_zip)
  finally show ?thesis .
qed

lemma preprocess_rates:
  "set (map rate (fst (preprocess df fr))) = set (frame_rates df)"
  "length (map rate (fst (preprocess df fr))) = length (frame_rates df)"
proof -
  show "set (map rate (fst (preprocess df fr))) = set (frame_rates df)"
  proof (cases df)
    case (Rates rs)
    then show ?thesis by (simp add: preprocess_Rates_rates frame_rates_def)
  next
    case (RatesWithChange rs)
    then show ?thesis by (force simp: preprocess_def frame_rates_def image_iff)
  qed
  show "length (map rate (fst (preprocess df fr))) = length (frame_rates df)"
  proof (cases df)
    case (Rates rs)
    then show ?thesis using arg_cong[OF preprocess_Rates_rates[of rs fr], of length]
      by (simp add: frame_rates_def)
  next
    case (RatesWithChange rs)
    then show ?thesis by (simp add: preprocess_def frame_rates_def)
  qed
qed

lemma extrema_none:
  assumes "length rs \<le> 1 \<or> (\<forall>r\<in>set rs. r = c)"
  shows "extrema_annotations rs = []"
proof (cases "length rs \<le> 1")
  case True
  then show ?thesis by (simp add: extrema_annotations_def)
next
  case False
  then have all: "\<forall>r\<in>set rs. r = c" and ne: "rs \<noteq> []" using assms by auto
  then have "set rs = {c}" by (cases rs) auto
  then have "series_max rs = Some c" "series_min rs = Some c"
    using ne by (simp_all add: series_max_eq series_min_eq)
  then show ?thesis by (simp add: extrema_annotations_def)
qed

lemma label_loop_zeros:
  assumes "0 < n"
  shows "label_loop ylim w m k {} (zip [0..<n] (replicate n 0)) = [make_label ylim w m 0 0]"
proof -
  obtain n' where n: "n = Suc n'" using assms by (cases n) auto
  have z: "zip [0..<n] (replicate n 0) = (0, 0) # zip [Suc 0..<n] (replicate n' (0::real))"
    unfolding n by (simp add: upt_conv_Cons)
  have "\<forall>b\<in>set (zip [Suc 0..<n] (replicate n' (0::real))). snd b \<in> {0}"
    by (auto dest: set_zip_rightD)
  then have "label_loop ylim w m k {0} (zip [Suc 0..<n] (replicate n' (0::real))) = []"
    by (rule label_loop_all_seen)
  then show ?thesis unfolding z by simp
qed

lemma format_1f_zero: "format_1f 0 = ''0.0''"
  by (simp add: format_1f_def round_half_even_def show_nat.simps digit_char_def)

section \<open>Label budget, degenerate series, persistence, masking and the fallback\<close>

text \<open>
  C4: the stride is \<open>max 1 (N div max_bar_labels)\<close>, but the floor division lets more than
  \<open>max_bar_labels\<close> bars through, although the docstring calls the parameter the maximum
  number of labels. With \<open>max_bar_labels = 5\<close> and 23 rows of pairwise different deltas the
  stride is 4 and the six bars 0, 4, 8, 12, 16, 20 are all labelled.
\<close>

theorem more_labels_than_max_bar_labels:
  "map label_idx (case plot_rate_changes (\<lambda>t. []) (0, 0)
        (Rates [(1, 1500), (2, 1501), (3, 1503), (4, 1506), (5, 1510), (6, 1515), (7, 1521),
                (8, 1528), (9, 1536), (10, 1545), (11, 1555), (12, 1566), (13, 1578),
                (14, 1591), (15, 1605), (16, 1620), (17, 1636), (18, 1653), (19, 1671),
                (20, 1690), (21, 1710), (22, 1731), (23, 1753)])
        \<lparr>figsize = (18, 12), font_scale = 2.5, max_bar_labels = 5, first_rate = 0,
         output_file = None\<rparr>
        \<lparr>open_figures = [], files = (\<lambda>_. None)\<rparr> of
      Inl e \<Rightarrow> [] | Inr (res, st) \<Rightarrow> chart_labels (result_fig res))
   = [0, 4, 8, 12, 16, 20]"
  by (simp add: eval_defs Let_def)


lemma constant_of_short:
  assumes "length (xs::real list) \<le> 1 \<or> (\<forall>r\<in>set xs. r = c)"
  shows "\<exists>c'. \<forall>r\<in>set xs. r = c'"
proof (cases "length xs \<le> 1")
  case True
  then show ?thesis by (cases xs) auto
next
  case False
  then show ?thesis using assms by blast
qed

lemma constant_frame_labels:
  assumes "\<forall>r\<in>set (map snd rs). r = c"
    and "bar_labels ylim w mbl (map rate_change (fst (preprocess (Rates rs) fr))) = Inr ls"
  shows "map (\<lambda>l. (label_idx l, label_value l, label_text l)) ls
           = (if rs = [] then [] else [(0, 0, ''0.0'')])"
proof -
  let ?ds = "map rate_change (fst (preprocess (Rates rs) fr))"
  have "\<forall>r\<in>set (map snd (sort_key fst rs)). r = c" using assms(1) by simp
  then have "diff_fillna (map snd (sort_key fst rs)) = replicate (length (map snd (sort_key fst rs))) 0"
    by (rule diff_fillna_constant)
  then have ds: "?ds = replicate (length rs) 0" by (simp add: preprocess_Rates_changes)
  have ls: "ls = label_loop ylim w (length ?ds) (max 1 (int (length ?ds) div mbl)) {}
                   (zip [0..<length ?ds] ?ds)"
    using bar_labels_Inr[OF assms(2)] by blast
  show ?thesis
  proof (cases "rs = []")
    case True
    then show ?thesis using ls ds by simp
  next
    case False
    then have "0 < length rs" by simp
    then have "ls = [make_label ylim w (length rs) 0 0]"
      using ls unfolding ds by (simp add: label_loop_zeros)
    then show ?thesis using False by (simp add: make_label_sel format_1f_zero)
  qed
qed

text \<open>
  C6, as amended: for a frame of at most one row, and for a frame whose rates are all
  equal, the render succeeds (given a non-zero \<open>max_bar_labels\<close>) and draws no extrema
  annotation. The labelling step stays silent only for the empty frame: when the deltas are
  derived from the rates, a frame of one row or a non-empty constant frame gets exactly one
  label, on bar 0, with value 0 and text 0.0.
\<close>

theorem short_or_constant_series:
  assumes "max_bar_labels args \<noteq> 0"
    and "length (frame_rates df) \<le> 1 \<or> (\<forall>r\<in>set (frame_rates df). r = c)"
  shows "\<exists>res st'. plot_rate_changes strftime ylim df args st = Inr (res, st')
      \<and> chart_annotations (result_fig res) = []
      \<and> (\<forall>rs. df = Rates rs \<longrightarrow>
            map (\<lambda>l. (label_idx l, label_value l, label_text l)) (chart_labels (result_fig res))
              = (if rs = [] then [] else [(0, 0, ''0.0'')]))"
proof -
  obtain res st' where r: "plot_rate_changes strftime ylim df args st = Inr (res, st')"
    using plot_rate_changes_total[OF assms(1)] by blast
  let ?pdf = "fst (preprocess df (first_rate args))"
  have ch: "draw_chart strftime ylim args ?pdf = Inr (result_fig res)"
    using plot_rate_changes_chart[OF r] .
  obtain c' where c': "\<forall>r\<in>set (frame_rates df). r = c'"
    using constant_of_short[OF assms(2)] by blast
  then have "\<forall>r\<in>set (map rate ?pdf). r = c'"
    using preprocess_rates(1)[of df "first_rate args"] by simp
  then have "extrema_annotations (map rate ?pdf) = []"
    by (intro extrema_none) blast
  then have ann: "chart_annotations (result_fig res) = []"
    using draw_chart_fields(2)[OF ch] by simp
  have lab: "\<forall>rs. df = Rates rs \<longrightarrow>
            map (\<lambda>l. (label_idx l, label_value l, label_text l)) (chart_labels (result_fig res))
              = (if rs = [] then [] else [(0, 0, ''0.0'')])"
  proof (intro allI impI)
    fix rs assume df: "df = Rates rs"
    have "\<forall>r\<in>set (map snd rs). r = c'" using c' df by (simp add: frame_rates_def)
    moreover have "bar_labels ylim (fst (figsize args)) (max_bar_labels args)
        (map rate_change (fst (preprocess (Rates rs) (first_rate args))))
          = Inr (chart_labels (result_fig res))"
      using draw_chart_fields(1)[OF ch] df by simp
    ultimately show "map (\<lambda>l. (label_idx l, label_value l, label_text l))
                       (chart_labels (result_fig res))
                     = (if rs = [] then [] else [(0, 0, ''0.0'')])"
      by (rule constant_frame_labels)
  qed
  show ?thesis using r ann lab by blast
qed

text \<open>
  The amended C6 at a constant frame of three rows.
\<close>

theorem short_or_constant_series_witness:
  "\<exists>res st'. plot_rate_changes (\<lambda>t. []) (0, 0)
        (Rates [(1, 1500), (2, 1500), (3, 1500)])
        \<lparr>figsize = (18, 12), font_scale = 2.5, max_bar_labels = 15, first_rate = 0,
         output_file = None\<rparr>
        \<lparr>open_figures = [], files = (\<lambda>_. None)\<rparr> = Inr (res, st')
      \<and> chart_annotations (result_fig res) = []
      \<and> map (\<lambda>l. (label_idx l, label_value l, label_text l)) (chart_labels (result_fig res))
          = [(0, 0, ''0.0'')]"
proof -
  let ?args = "\<lparr>figsize = (18, 12), font_scale = 2.5, max_bar_labels = 15, first_rate = 0,
         output_file = None\<rparr>"
  let ?df = "Rates [(1, 1500), (2, 1500), (3, 1500)]"
  have a: "max_bar_labels ?args \<noteq> 0" by simp
  have b: "length (frame_rates ?df) \<le> 1 \<or> (\<forall>r\<in>set (frame_rates ?df). r = 1500)"
    by (simp add: frame_rates_def)
  from short_or_constant_series[OF a b, of "\<lambda>t. []" "(0, 0)" "\<lparr>open_figures = [], files = (\<lambda>_. None)\<rparr>"]
  show ?thesis by auto
qed

lemma preprocess_frame_independent: "fst (preprocess df a) = fst (preprocess df b)"
  by (cases df) (simp_all add: preprocess_def Let_def)

text \<open>
  C10: \<open>first_rate\<close> is only ever assigned to, never read by a later step: two calls that
  differ in nothing but \<open>first_rate\<close> return the same chart, the same image and leave the
  same pyplot state and files.
\<close>

theorem first_rate_has_no_effect:
  "plot_rate_changes strftime ylim df (args\<lparr>first_rate := a\<rparr>) st
     = plot_rate_changes strftime ylim df (args\<lparr>first_rate := b\<rparr>) st"
proof -
  have d: "draw_chart strftime ylim (args\<lparr>first_rate := x\<rparr>) plot_df
             = draw_chart strftime ylim args plot_df" for x plot_df
    by (simp add: draw_chart_def Let_def cong: sum.case_cong)
  show ?thesis
    unfolding plot_rate_changes_def case_prod_beta d
    using preprocess_frame_independent[of df a b]
    by (simp add: Let_def cong: sum.case_cong)
qed

text \<open>
  Whatever the frame, a call with a non-empty output path leaves a blank figure in the
  file and returns the image of the chart at 100 dpi.
\<close>

lemma saved_file_blank:
  assumes "plot_rate_changes strftime ylim df args st = Inr (res, st')"
    and "output_file args = Some path" "path \<noteq> []"
  shows "files st' path = Some \<lparr>image_of = None, image_dpi = 150\<rparr>"
    and "img_base64 res = \<lparr>image_of = Some (result_fig res), image_dpi = 100\<rparr>"
  using assms
  by (auto simp: plot_rate_changes_def Let_def case_prod_beta savefig_buffer_def savefig_file_def
      plt_gcf_def plt_draw_def plt_figure_def plt_close_def plt_close_all_def current_image_def
      split: sum.splits)

text \<open>
  C9: the file should hold the image that is returned. Both functions call \<open>plt.close()\<close>
  between the \<open>savefig\<close> into the buffer and the \<open>savefig\<close> into the file, so the second
  call finds no open figure and renders a new empty one: the file holds a blank figure (and,
  for the rate chart, at 150 dpi where the returned image has 100).
\<close>

theorem saved_file_is_blank_figure:
  "(case plot_rate_changes (\<lambda>t. []) (0, 0) (Rates [(1, 1500), (2, 1520)])
        \<lparr>figsize = (18, 12), font_scale = 2.5, max_bar_labels = 15, first_rate = 0,
         output_file = Some ''rate.png''\<rparr>
        \<lparr>open_figures = [], files = (\<lambda>_. None)\<rparr> of
      Inl e \<Rightarrow> False
    | Inr (res, st') \<Rightarrow>
        files st' ''rate.png'' = Some \<lparr>image_of = None, image_dpi = 150\<rparr>
        \<and> img_base64 res = \<lparr>image_of = Some (result_fig res), image_dpi = 100\<rparr>)
   \<and> (case generate_correlation_heatmap
          (\<lambda>d m. Inr \<lparr>corr_index = [''a'', ''b''], corr_values = [[1, 1 / 2], [1 / 2, 1]]\<rparr>)
          (\<lambda>i j. 0) [(''a'', [1, 2, 3]), (''b'', [1, 3, 2])]
          \<lparr>method_name = ''pearson'', annotate = True, mask_half = True, diagonal = False,
           heat_output_file = Some ''corr.png''\<rparr>
          \<lparr>open_figures = [], files = (\<lambda>_. None)\<rparr> of
        Inl e \<Rightarrow> False
      | Inr (img, st') \<Rightarrow>
          files st' ''corr.png'' = Some \<lparr>image_of = None, image_dpi = 150\<rparr>
          \<and> image_of img
              = Some (Single \<lparr>hm_corr = \<lparr>corr_index = [''a'', ''b''],
                                         corr_values = [[1, 1 / 2], [1 / 2, 1]]\<rparr>,
                              hm_mask = Some [[False, True], [False, False]],
                              hm_annot = True, hm_method = ''pearson''\<rparr>))"
  by (simp add: eval_defs Let_def generate_correlation_heatmap_def corr_or_fallback_def
      heatmap_mask_def np_triu_ones_def np_fill_diagonal_def)

text \<open>
  The cells hidden on a square matrix when \<open>mask_half\<close> is set: the strictly upper
  triangle, and the diagonal exactly when the flag \<open>diagonal\<close> is True.
\<close>

lemma mask_cells:
  assumes "length (corr_values corr) = n" "\<And>a. a < n \<Longrightarrow> length (corr_values corr ! a) = n"
    and "i < n" "j < n"
  shows "cell_hidden (heatmap_mask corr True show_diagonal) i j
           \<longleftrightarrow> i < j \<or> (i = j \<and> show_diagonal)"
  using assms
  by (auto simp: cell_hidden_def heatmap_mask_def np_triu_ones_def np_fill_diagonal_def
      nth_list_update)

text \<open>
  C8: with \<open>mask_half\<close> set, the strictly upper triangle is hidden, but the diagonal flag
  works the wrong way round. The docstring calls \<open>diagonal\<close> "whether to show the diagonal"
  and the comment at line 65 says the branch hides it; the branch clears the mask on the
  diagonal, which shows it. So the diagonal is shown when \<open>diagonal\<close> is False and hidden
  when it is True.
\<close>

theorem diagonal_flag_is_inverted:
  "heatmap_mask \<lparr>corr_index = [''a'', ''b''], corr_values = [[1, 1 / 2], [1 / 2, 1]]\<rparr> True False
     = Some [[False, True], [False, False]]
   \<and> heatmap_mask \<lparr>corr_index = [''a'', ''b''], corr_values = [[1, 1 / 2], [1 / 2, 1]]\<rparr> True True
     = Some [[True, True], [False, True]]
   \<and> \<not> cell_hidden (heatmap_mask \<lparr>corr_index = [''a'', ''b''],
                                    corr_values = [[1, 1 / 2], [1 / 2, 1]]\<rparr> True False) 0 0
   \<and> cell_hidden (heatmap_mask \<lparr>corr_index = [''a'', ''b''],
                                  corr_values = [[1, 1 / 2], [1 / 2, 1]]\<rparr> True True) 0 0"
  by (simp add: heatmap_mask_def np_triu_ones_def np_fill_diagonal_def cell_hidden_def)

text \<open>
  The fallback matrix in closed form: the two loops leave 1 on the diagonal and the draw of
  the upper triangle mirrored below it. \<open>generate_correlation_heatmap\<close> never raises and
  draws this matrix when \<open>corr\<close> fails; the combined figure does not.
\<close>

lemma mat_nth: "i < n \<Longrightarrow> j < n \<Longrightarrow> mat n f ! i ! j = f i j"
  by (simp add: mat_def)

lemma mat_length: "length (mat n f) = n" "i < n \<Longrightarrow> length (mat n f ! i) = n"
  by (simp_all add: mat_def)

lemma mat_cong: "(\<And>a b. a < n \<Longrightarrow> b < n \<Longrightarrow> f a b = g a b) \<Longrightarrow> mat n f = mat n g"
  by (simp add: mat_def)

lemma set_entry_mat:
  assumes "i < n" "j < n"
  shows "set_entry (mat n f) i j v = mat n (\<lambda>a b. if a = i \<and> b = j then v else f a b)"
proof (rule nth_equalityI)
  show "length (set_entry (mat n f) i j v) = length (mat n (\<lambda>a b. if a = i \<and> b = j then v else f a b))"
    by (simp add: set_entry_def mat_def)
next
  fix a assume "a < length (set_entry (mat n f) i j v)"
  then have a: "a < n" by (simp add: set_entry_def mat_def)
  show "set_entry (mat n f) i j v ! a = mat n (\<lambda>a b. if a = i \<and> b = j then v else f a b) ! a"
  proof (cases "a = i")
    case True
    have "(map (f i) [0..<n])[j := v] = map (\<lambda>b. if b = j then v else f i b) [0..<n]"
      by (rule nth_equalityI) (simp_all add: nth_list_update)
    then show ?thesis using True a by (simp add: set_entry_def mat_def)
  next
    case False
    then show ?thesis using a by (simp add: set_entry_def mat_def)
  qed
qed

lemma diag_loop:
  "k \<le> n \<Longrightarrow> fold (\<lambda>i m. set_entry m i i 1) [0..<k] (mat n f)
     = mat n (\<lambda>a b. if a = b \<and> a < k then 1 else f a b)"
proof (induction k)
  case 0
  then show ?case by simp
next
  case (Suc k)
  then have k: "k < n" by simp
  have "fold (\<lambda>i m. set_entry m i i 1) [0..<Suc k] (mat n f)
      = set_entry (mat n (\<lambda>a b. if a = b \<and> a < k then 1 else f a b)) k k 1"
    using Suc by simp
  also have "\<dots> = mat n (\<lambda>a b. if a = k \<and> b = k then 1
                              else if a = b \<and> a < k then 1 else f a b)"
    using k by (rule set_entry_mat[OF _ k])
  also have "\<dots> = mat n (\<lambda>a b. if a = b \<and> a < Suc k then 1 else f a b)"
    by (rule mat_cong) (auto simp: less_Suc_eq)
  finally show ?case .
qed

lemma copy_row_loop:
  assumes "i < n"
  shows "k \<le> n \<Longrightarrow> fold (\<lambda>j m'. set_entry m' j i (m' ! i ! j)) [Suc i..<k] (mat n f)
     = mat n (\<lambda>a b. if b = i \<and> i < a \<and> a < k then f i a else f a b)"
proof (induction k)
  case 0
  have "mat n f = mat n (\<lambda>a b. if b = i \<and> i < a \<and> a < 0 then f i a else f a b)"
    by (rule mat_cong) simp
  then show ?case by simp
next
  case (Suc k)
  then have k: "k < n" by simp
  show ?case
  proof (cases "Suc i \<le> k")
    case False
    then have "[Suc i..<Suc k] = []" by simp
    moreover have "mat n f = mat n (\<lambda>a b. if b = i \<and> i < a \<and> a < Suc k then f i a else f a b)"
      using False by (intro mat_cong) auto
    ultimately show ?thesis by simp
  next
    case True
    let ?g = "\<lambda>a b. if b = i \<and> i < a \<and> a < k then f i a else f a b"
    have gik: "mat n ?g ! i ! k = f i k" using assms k True by (simp add: mat_nth)
    have "fold (\<lambda>j m'. set_entry m' j i (m' ! i ! j)) [Suc i..<Suc k] (mat n f)
        = set_entry (mat n ?g) k i (mat n ?g ! i ! k)"
      using Suc True by simp
    also have "\<dots> = mat n (\<lambda>a b. if a = k \<and> b = i then f i k else ?g a b)"
      unfolding gik using k assms by (rule set_entry_mat)
    also have "\<dots> = mat n (\<lambda>a b. if b = i \<and> i < a \<and> a < Suc k then f i a else f a b)"
      using True by (intro mat_cong) (auto simp: less_Suc_eq)
    finally show ?thesis .
  qed
qed

lemma symmetrise_loop:
  "k \<le> n \<Longrightarrow>
   fold (\<lambda>i m. fold (\<lambda>j m'. set_entry m' j i (m' ! i ! j)) [Suc i..<n] m) [0..<k] (mat n f)
     = mat n (\<lambda>a b. if b < a \<and> b < k then f b a else f a b)"
proof (induction k)
  case 0
  show ?case by simp
next
  case (Suc k)
  then have k: "k < n" by simp
  let ?g = "\<lambda>a b. if b < a \<and> b < k then f b a else f a b"
  have "fold (\<lambda>i m. fold (\<lambda>j m'. set_entry m' j i (m' ! i ! j)) [Suc i..<n] m) [0..<Suc k] (mat n f)
      = fold (\<lambda>j m'. set_entry m' j k (m' ! k ! j)) [Suc k..<n] (mat n ?g)"
    using Suc by simp
  also have "\<dots> = mat n (\<lambda>a b. if b = k \<and> k < a \<and> a < n then ?g k a else ?g a b)"
    using copy_row_loop[OF k, of n ?g] by simp
  also have "\<dots> = mat n (\<lambda>a b. if b < a \<and> b < Suc k then f b a else f a b)"
    by (intro mat_cong) (auto simp: less_Suc_eq)
  finally show ?case .
qed

lemma fallback_matrix_closed_form:
  "corr_values (fallback_matrix rnd metrics)
     = mat (length metrics) (\<lambda>a b. if a = b then 1 else if b < a then rnd b a else rnd a b)"
proof -
  let ?n = "length metrics"
  let ?f1 = "\<lambda>a b. if a = b \<and> a < ?n then 1 else rnd a b"
  have m0: "map (\<lambda>i. map (rnd i) [0..<?n]) [0..<?n] = mat ?n rnd" by (simp add: mat_def)
  have "corr_values (fallback_matrix rnd metrics)
      = fold (\<lambda>i m. fold (\<lambda>j m'. set_entry m' j i (m' ! i ! j)) [Suc i..<?n] m) [0..<?n]
          (fold (\<lambda>i m. set_entry m i i 1) [0..<?n] (mat ?n rnd))"
    by (simp add: fallback_matrix_def Let_def m0)
  also have "\<dots> = fold (\<lambda>i m. fold (\<lambda>j m'. set_entry m' j i (m' ! i ! j)) [Suc i..<?n] m) [0..<?n]
          (mat ?n ?f1)"
    by (simp only: diag_loop[OF le_refl])
  also have "\<dots> = mat ?n (\<lambda>a b. if b < a \<and> b < ?n then ?f1 b a else ?f1 a b)"
    by (rule symmetrise_loop[OF le_refl])
  also have "\<dots> = mat ?n (\<lambda>a b. if a = b then 1 else if b < a then rnd b a else rnd a b)"
    by (intro mat_cong) auto
  finally show ?thesis .
qed

lemma fallback_matrix_labels: "corr_index (fallback_matrix rnd metrics) = metrics"
  by (simp add: fallback_matrix_def Let_def)

lemma fallback_matrix_shape:
  "length (corr_values (fallback_matrix rnd metrics)) = length metrics"
  "i < length metrics \<Longrightarrow> length (corr_values (fallback_matrix rnd metrics) ! i) = length metrics"
  by (simp_all add: fallback_matrix_closed_form mat_length)

lemma fallback_matrix_entry:
  assumes "i < length metrics" "j < length metrics"
  shows "corr_values (fallback_matrix rnd metrics) ! i ! j
           = (if i = j then 1 else if j < i then rnd j i else rnd i j)"
  using assms by (simp add: fallback_matrix_closed_form mat_nth)

lemma fallback_matrix_symmetric:
  assumes "i < length metrics" "j < length metrics"
  shows "corr_values (fallback_matrix rnd metrics) ! i ! j
           = corr_values (fallback_matrix rnd metrics) ! j ! i"
  using assms by (auto simp: fallback_matrix_entry)

lemma fallback_matrix_range:
  assumes "\<And>a b. - 1 \<le> rnd a b \<and> rnd a b \<le> 1"
    and "i < length metrics" "j < length metrics"
  shows "- 1 \<le> corr_values (fallback_matrix rnd metrics) ! i ! j"
    and "corr_values (fallback_matrix rnd metrics) ! i ! j \<le> 1"
  using assms by (simp_all add: fallback_matrix_entry)

lemma heatmap_call_never_raises:
  "\<exists>img st'. generate_correlation_heatmap corr_fn rnd data args st = Inr (img, st')"
  by (simp add: generate_correlation_heatmap_def Let_def case_prod_beta)

lemma heatmap_call_draws_fallback:
  assumes "corr_fn data (method_name args) = Inl e"
    and "generate_correlation_heatmap corr_fn rnd data args st = Inr (img, st')"
  shows "\<exists>h. image_of img = Some (Single h) \<and> hm_corr h = fallback_matrix rnd (columns data)"
  using assms
  by (auto simp: generate_correlation_heatmap_def Let_def case_prod_beta corr_or_fallback_def
      savefig_buffer_def plt_gcf_def plt_draw_def plt_figure_def current_image_def
      split: list.splits)

lemma per_method_never_raises:
  "\<exists>r. per_method corr_fn rnds data out k ms acc st = Inr r"
proof (induction ms arbitrary: k acc st)
  case Nil
  show ?case by simp
next
  case (Cons m ms)
  obtain img st' where "generate_correlation_heatmap corr_fn (rnds k) data
             \<lparr>method_name = m, annotate = True, mask_half = True, diagonal = False,
              heat_output_file = method_output_file out m\<rparr> st = Inr (img, st')"
    using heatmap_call_never_raises by blast
  then show ?case using Cons.IH by simp
qed

lemma combined_figure_propagates:
  assumes "select_columns data targets = Inr filtered_data"
    and "corr_fn filtered_data m = Inl e"
  shows "generate_advanced_correlation_heatmap corr_fn rnds data (Some targets)
           (Some (m # m' # ms)) out st = Inl e"
proof -
  obtain r where "per_method corr_fn rnds filtered_data out 0 (m # m' # ms) Map.empty st = Inr r"
    using per_method_never_raises by blast
  then show ?thesis using assms
    by (cases r) (simp add: generate_advanced_correlation_heatmap_def)
qed

text \<open>
  C3: \<open>generate_correlation_heatmap\<close> catches a failing \<open>corr\<close> and draws the fallback
  matrix, but the combined figure of \<open>generate_advanced_correlation_heatmap\<close> calls
  \<open>corr\<close> again with no handler (line 155), so with the default two methods the failure
  reaches the caller.
\<close>

theorem combined_panel_propagates_failure:
  "generate_advanced_correlation_heatmap (\<lambda>d m. Inl CorrFailure) (\<lambda>k i j. 0)
       [(''a'', [1, 2, 3]), (''b'', [1, 3, 2])] None None None
       \<lparr>open_figures = [], files = (\<lambda>_. None)\<rparr>
     = Inl CorrFailure
   \<and> (case generate_correlation_heatmap (\<lambda>d m. Inl CorrFailure) (\<lambda>i j. 0)
          [(''a'', [1, 2, 3]), (''b'', [1, 3, 2])]
          \<lparr>method_name = ''pearson'', annotate = True, mask_half = True, diagonal = False,
           heat_output_file = None\<rparr>
          \<lparr>open_figures = [], files = (\<lambda>_. None)\<rparr> of
        Inl e \<Rightarrow> False
      | Inr (img, st') \<Rightarrow>
          image_of img
            = Some (Single \<lparr>hm_corr = \<lparr>corr_index = [''a'', ''b''],
                                       corr_values = [[1, 0], [0, 1]]\<rparr>,
                            hm_mask = Some [[False, True], [False, False]],
                            hm_annot = True, hm_method = ''pearson''\<rparr>))"
  by (simp add: generate_advanced_correlation_heatmap_def generate_correlation_heatmap_def
      corr_or_fallback_def fallback_matrix_def set_entry_def columns_def method_output_file_def
      heatmap_mask_def np_triu_ones_def np_fill_diagonal_def eval_defs Let_def)

end
